theory Spec2Isabelle
  imports Complex_Main "HOL-Library.Word"
begin

section \<open>Images and errors\<close>

text \<open>
  The module \<open>single_image.py\<close> is a set of wrappers around OpenCV calls on numpy arrays.
  An image is an array of rows of pixels, a pixel is the list of its channel samples, and a
  sample is an unsigned 8-bit value. A single-channel image has pixels of length one.
\<close>

type_synonym sample = "8 word"
type_synonym pixel = "sample list"
type_synonym image = "pixel list list"

text \<open>
  Python exceptions as values: \<open>ValueError\<close> is what the module itself raises,
  \<open>CvError\<close> stands for \<open>cv2.error\<close>, raised inside an OpenCV call.
\<close>

datatype error = ValueError string | CvError string

definition rows :: "image \<Rightarrow> nat" where
  "rows img = length img"

definition cols :: "image \<Rightarrow> nat" where
  "cols img = (case img of [] \<Rightarrow> 0 | r # _ \<Rightarrow> length r)"

definition channels :: "image \<Rightarrow> nat" where
  "channels img = (case img of [] \<Rightarrow> 0 | r # _ \<Rightarrow> (case r of [] \<Rightarrow> 0 | p # _ \<Rightarrow> length p))"

text \<open>A non-empty rectangular array with at least one channel.\<close>

definition well_formed :: "image \<Rightarrow> bool" where
  "well_formed img =
     (0 < rows img \<and> 0 < cols img \<and> 0 < channels img \<and>
      list_all (\<lambda>r. length r = cols img \<and> list_all (\<lambda>p. length p = channels img) r) img)"

definition samples :: "image \<Rightarrow> sample list" where
  "samples img = concat (concat img)"

text \<open>The sample of channel \<open>c\<close> at row \<open>y\<close>, column \<open>x\<close>, read as an integer.\<close>

definition sample_at :: "image \<Rightarrow> nat \<Rightarrow> nat \<Rightarrow> nat \<Rightarrow> int" where
  "sample_at img y x c = uint (img ! y ! x ! c)"

text \<open>An array given by its value at every row and column.\<close>

definition build :: "nat \<Rightarrow> nat \<Rightarrow> (nat \<Rightarrow> nat \<Rightarrow> 'a) \<Rightarrow> 'a list list" where
  "build h w f = map (\<lambda>y. map (f y) [0..<w]) [0..<h]"

text \<open>OpenCV's \<open>saturate_cast<uchar>\<close> of an integer.\<close>

definition saturate_u8 :: "int \<Rightarrow> sample" where
  "saturate_u8 v = (if v < 0 then 0 else if 255 < v then 255 else word_of_int v)"

section \<open>The OpenCV primitives the module calls\<close>

text \<open>
  The keyword parameters of \<open>cv2.fastNlMeansDenoisingColored(src[, dst[, h[, hColor[,
  templateWindowSize[, searchWindowSize]]]]])\<close>, under OpenCV's own names.
\<close>

record nlm_args =
  nlm_src :: image
  nlm_dst :: "image option"
  nlm_h :: int
  nlm_hColor :: int
  nlm_templateWindowSize :: int
  nlm_searchWindowSize :: int

datatype depth = CV_8U | CV_64F

type_synonym fmat = "real list list"

text \<open>
  The parts of OpenCV that are computed in floating point, or depend on the library's
  version, are not fixed here: they are the fields of a record every wrapper receives,
  and every theorem below holds whatever they compute.
  \<^item> \<open>cv_luma b g r\<close>: the gray value of a BGR pixel;
  \<^item> \<open>cv_otsu gray\<close>: the threshold Otsu's method selects;
  \<^item> \<open>cv_box_mean gray block y x\<close>: the mean of the block around a pixel;
  \<^item> \<open>cv_interp src w h y x\<close>: the interpolated pixel of a resized image;
  \<^item> \<open>cv_can_allocate rows cols channels\<close>: whether the library can hold a new array of
    that size (its memory and its 32-bit index arithmetic decide), which matters where the
    caller chooses the size of the result;
  \<^item> \<open>cv_nlmeans\<close>, \<open>cv_canny\<close>, \<open>cv_sobel\<close>: the three calls as a whole, failing
    with the message of a \<open>cv2.error\<close> or returning their result.
\<close>

record cv =
  cv_luma :: "sample \<Rightarrow> sample \<Rightarrow> sample \<Rightarrow> sample"
  cv_otsu :: "image \<Rightarrow> int"
  cv_box_mean :: "image \<Rightarrow> int \<Rightarrow> nat \<Rightarrow> nat \<Rightarrow> int"
  cv_interp :: "image \<Rightarrow> nat \<Rightarrow> nat \<Rightarrow> nat \<Rightarrow> nat \<Rightarrow> pixel"
  cv_can_allocate :: "nat \<Rightarrow> nat \<Rightarrow> nat \<Rightarrow> bool"
  cv_nlmeans :: "nlm_args \<Rightarrow> string + image"
  cv_canny :: "image \<Rightarrow> int \<Rightarrow> int \<Rightarrow> string + image"
  cv_sobel :: "image \<Rightarrow> depth \<Rightarrow> int \<Rightarrow> int \<Rightarrow> int \<Rightarrow> string + fmat"

text \<open>A failure inside a library call reaches the caller as \<open>cv2.error\<close>.\<close>

definition lift :: "string + 'a \<Rightarrow> error + 'a" where
  "lift r = (case r of Inl m \<Rightarrow> Inl (CvError m) | Inr v \<Rightarrow> Inr v)"

text \<open>
  \<open>cv2.cvtColor(src, cv2.COLOR_BGR2GRAY)\<close>: the source must be non-empty and have 3 or 4
  channels; the result has one channel.
\<close>

definition cvtColor_BGR2GRAY :: "cv \<Rightarrow> image \<Rightarrow> error + image" where
  "cvtColor_BGR2GRAY lib src =
     (if \<not> well_formed src then Inl (CvError ''cvtColor: empty source'')
      else if channels src \<noteq> 3 \<and> channels src \<noteq> 4
        then Inl (CvError ''cvtColor: invalid number of channels in input image'')
      else Inr (map (map (\<lambda>p. [cv_luma lib (p ! 0) (p ! 1) (p ! 2)])) src))"

text \<open>
  \<open>cv2.threshold(src, thresh, maxval, cv2.THRESH_BINARY + cv2.THRESH_OTSU)\<close>: the source
  must be 8-bit single-channel; \<open>thresh\<close> is ignored and replaced by Otsu's level; a sample
  above the level becomes \<open>maxval\<close>, any other 0. The call returns the level and the image.
\<close>

definition threshold_BINARY_OTSU :: "cv \<Rightarrow> image \<Rightarrow> int \<Rightarrow> int \<Rightarrow> error + (int \<times> image)" where
  "threshold_BINARY_OTSU lib src thresh maxval =
     (if \<not> well_formed src then Inl (CvError ''threshold: empty source'')
      else if channels src \<noteq> 1 then Inl (CvError ''threshold: Otsu needs an 8-bit single-channel image'')
      else let level = cv_otsu lib src
           in Inr (level, map (map (map (\<lambda>s. if level < uint s then saturate_u8 maxval else 0))) src))"

text \<open>
  \<open>cv2.adaptiveThreshold(src, maxValue, cv2.ADAPTIVE_THRESH_MEAN_C, cv2.THRESH_BINARY,
  blockSize, C)\<close>: the source must be 8-bit single-channel and the block size odd and
  greater than 1; a negative \<open>maxValue\<close> gives an all-zero image; otherwise a sample becomes
  \<open>maxValue\<close> when it exceeds the mean of its block minus \<open>C\<close>, and 0 when it does not.
\<close>

definition adaptiveThreshold_MEAN_BINARY :: "cv \<Rightarrow> image \<Rightarrow> int \<Rightarrow> int \<Rightarrow> int \<Rightarrow> error + image" where
  "adaptiveThreshold_MEAN_BINARY lib src maxValue blockSize C =
     (if \<not> well_formed src then Inl (CvError ''adaptiveThreshold: empty source'')
      else if channels src \<noteq> 1 then Inl (CvError ''adaptiveThreshold: needs an 8-bit single-channel image'')
      else if blockSize mod 2 \<noteq> 1 then Inl (CvError ''adaptiveThreshold: blockSize must be odd'')
      else if blockSize \<le> 1 then Inl (CvError ''adaptiveThreshold: blockSize must be greater than 1'')
      else if maxValue < 0 then Inr (build (rows src) (cols src) (\<lambda>y x. [0]))
      else Inr (build (rows src) (cols src)
             (\<lambda>y x. [if - C < sample_at src y x 0 - cv_box_mean lib src blockSize y x
                     then saturate_u8 maxValue else 0])))"





text \<open>
  OpenCV's \<open>borderInterpolate(p, len, BORDER_REFLECT_101)\<close>, the default border of
  \<open>filter2D\<close>: an index inside the array is itself, an index outside is mirrored at the
  border sample (which is not repeated) until it is inside; an array of length 1 gives 0.
\<close>

function borderInterpolate_REFLECT_101 :: "int \<Rightarrow> int \<Rightarrow> int" where
  "borderInterpolate_REFLECT_101 p len =
     (if 0 \<le> p \<and> p < len then p
      else if len \<le> 1 then 0
      else borderInterpolate_REFLECT_101 (if p < 0 then - p else 2 * len - 2 - p) len)"
  by pat_completeness auto
termination
  by (relation "measure (\<lambda>(p, len). nat (if p < 0 then - p else p - len + 1))") auto

declare borderInterpolate_REFLECT_101.simps [simp del]

text \<open>The index read for position \<open>p\<close> of an axis of \<open>len\<close> entries.\<close>

definition mirror :: "int \<Rightarrow> nat \<Rightarrow> nat" where
  "mirror p len = nat (borderInterpolate_REFLECT_101 p (int len))"

text \<open>
  The sum \<open>filter2D\<close> computes for one output sample: the kernel is laid over the image
  with its centre (the default anchor) on the pixel, and every weight multiplies the sample
  under it, indices outside the image being reflected.
\<close>

definition correlate :: "image \<Rightarrow> int list list \<Rightarrow> nat \<Rightarrow> nat \<Rightarrow> nat \<Rightarrow> int" where
  "correlate src ker y x c =
     (\<Sum>i\<leftarrow>[0..<length ker]. \<Sum>j\<leftarrow>[0..<length (ker ! i)].
        ker ! i ! j *
        sample_at src
          (mirror (int y + int i - int (length ker div 2)) (rows src))
          (mirror (int x + int j - int (length (ker ! i) div 2)) (cols src))
          c)"

text \<open>
  \<open>cv2.filter2D(src, -1, kernel)\<close>: the result has the depth of the source (8-bit, so each
  sum is saturated) and its shape; every channel is filtered on its own.
\<close>

definition filter2D :: "image \<Rightarrow> int list list \<Rightarrow> error + image" where
  "filter2D src ker =
     (if \<not> well_formed src then Inl (CvError ''filter2D: empty source'')
      else if ker = [] then Inl (CvError ''filter2D: empty ker'')
      else if \<not> list_all (\<lambda>r. r \<noteq> [] \<and> length r = length (hd ker)) ker
        then Inl (CvError ''filter2D: ker is not a matrix'')
      else Inr (build (rows src) (cols src)
             (\<lambda>y x. map (\<lambda>c. saturate_u8 (correlate src ker y x c)) [0..<channels src])))"

text \<open>OpenCV's \<open>cvRound\<close>: to the nearest integer, a tie to the even one.\<close>

definition cvRound :: "rat \<Rightarrow> int" where
  "cvRound v =
     (let f = \<lfloor>v\<rfloor>; d = v - of_int f
      in if d < 1 / 2 then f else if 1 / 2 < d then f + 1 else if even f then f else f + 1)"

text \<open>
  \<open>cv2.normalize(src, None, alpha, beta, norm_type=cv2.NORM_MINMAX)\<close>: with \<open>smin\<close> and
  \<open>smax\<close> the least and greatest sample over all channels, every sample \<open>s\<close> becomes
  \<open>s * scale + shift\<close>, rounded and saturated, where \<open>scale\<close> is
  \<open>(max alpha beta - min alpha beta) / (smax - smin)\<close>, or 0 when \<open>smax = smin\<close>, and
  \<open>shift = min alpha beta - smin * scale\<close>. The library computes the two in floating
  point; here they are exact rationals.
\<close>

definition normalize_MINMAX :: "image \<Rightarrow> int \<Rightarrow> int \<Rightarrow> error + image" where
  "normalize_MINMAX src alpha beta =
     (if \<not> well_formed src then Inl (CvError ''normalize: empty source'')
      else
        let smin = uint (Min (set (samples src)));
            smax = uint (Max (set (samples src)));
            dmin = min alpha beta;
            dmax = max alpha beta;
            scale = of_int (dmax - dmin) * (if 0 < smax - smin then 1 / of_int (smax - smin) else 0);
            shift = of_int dmin - of_int smin * scale
        in Inr (map (map (map (\<lambda>s. saturate_u8 (cvRound (of_int (uint s) * scale + shift))))) src))"

text \<open>
  A positional call of \<open>cv2.fastNlMeansDenoisingColored\<close>: the arguments are bound to the
  parameters in the order of OpenCV's signature.
\<close>

definition fastNlMeansDenoisingColored ::
  "cv \<Rightarrow> image \<Rightarrow> image option \<Rightarrow> int \<Rightarrow> int \<Rightarrow> int \<Rightarrow> int \<Rightarrow> error + image" where
  "fastNlMeansDenoisingColored lib src dst h hColor templateWindowSize searchWindowSize =
     lift (cv_nlmeans lib
       \<lparr>nlm_src = src, nlm_dst = dst, nlm_h = h, nlm_hColor = hColor,
        nlm_templateWindowSize = templateWindowSize, nlm_searchWindowSize = searchWindowSize\<rparr>)"

text \<open>\<open>cv2.Canny(image, threshold1, threshold2)\<close> and \<open>cv2.Sobel(src, ddepth, dx, dy, ksize)\<close>.\<close>

definition Canny :: "cv \<Rightarrow> image \<Rightarrow> int \<Rightarrow> int \<Rightarrow> error + image" where
  "Canny lib img threshold1 threshold2 = lift (cv_canny lib img threshold1 threshold2)"

definition Sobel :: "cv \<Rightarrow> image \<Rightarrow> depth \<Rightarrow> int \<Rightarrow> int \<Rightarrow> int \<Rightarrow> error + fmat" where
  "Sobel lib src ddepth dx dy ksize = lift (cv_sobel lib src ddepth dx dy ksize)"

section \<open>The module's functions\<close>

text \<open>
  \<open>apply_threshold(image, method='otsu', block_size=5, offset=2)\<close>: the grayscale
  conversion comes first, the test of \<open>method\<close> after it.
\<close>

definition apply_threshold :: "cv \<Rightarrow> image \<Rightarrow> string \<Rightarrow> int \<Rightarrow> int \<Rightarrow> error + image" where
  "apply_threshold lib img method block_size offset =
     (case cvtColor_BGR2GRAY lib img of
        Inl e \<Rightarrow> Inl e
      | Inr gray \<Rightarrow>
          if method = ''otsu'' then
            (case threshold_BINARY_OTSU lib gray 0 255 of
               Inl e \<Rightarrow> Inl e
             | Inr (_, threshold) \<Rightarrow> Inr threshold)
          else if method = ''adaptive'' then
            adaptiveThreshold_MEAN_BINARY lib gray 255 block_size offset
          else Inl (ValueError (''Invalid thresholding method: '' @ method)))"


text \<open>\<open>sharpen(image)\<close>: the kernel is the array the function builds.\<close>

definition sharpen_kernel :: "int list list" where
  "sharpen_kernel = [[0, -1, 0], [-1, 5, -1], [0, -1, 0]]"

definition sharpen :: "image \<Rightarrow> error + image" where
  "sharpen img = filter2D img sharpen_kernel"

text \<open>Python's \<open>sharpen(sharpen(image))\<close>.\<close>

definition sharpen_twice :: "image \<Rightarrow> error + image" where
  "sharpen_twice img = (case sharpen img of Inl e \<Rightarrow> Inl e | Inr once \<Rightarrow> sharpen once)"

text \<open>
  The sharpened sample in the specification's words: the centre with weight 5, its four
  edge-adjacent neighbours with weight -1 each, the corners with weight 0; a neighbour
  outside the image is the mirrored one.
\<close>

definition sharpened_sample :: "image \<Rightarrow> nat \<Rightarrow> nat \<Rightarrow> nat \<Rightarrow> sample" where
  "sharpened_sample img y x c =
     saturate_u8
       (5 * sample_at img y x c
        - sample_at img (mirror (int y - 1) (rows img)) x c
        - sample_at img (mirror (int y + 1) (rows img)) x c
        - sample_at img y (mirror (int x - 1) (cols img)) c
        - sample_at img y (mirror (int x + 1) (cols img)) c)"

text \<open>
  \<open>reduce_noise(image, strength=20, h=10, hColor=7, templateWindowSize=21)\<close>: the four
  numbers are passed on by position, after \<open>image\<close> and \<open>None\<close>.
\<close>

definition reduce_noise :: "cv \<Rightarrow> image \<Rightarrow> int \<Rightarrow> int \<Rightarrow> int \<Rightarrow> int \<Rightarrow> error + image" where
  "reduce_noise lib img strength h hColor templateWindowSize =
     fastNlMeansDenoisingColored lib img None strength h hColor templateWindowSize"

text \<open>\<open>contrast_stretch(image)\<close>.\<close>

definition contrast_stretch :: "image \<Rightarrow> error + image" where
  "contrast_stretch img = normalize_MINMAX img 0 255"

text \<open>
  \<open>detect_edges(image, method='canny', low_threshold=50, high_threshold=150)\<close>. The result
  is an 8-bit edge map on the Canny path and a 64-bit floating-point array on the Sobel path.
\<close>

datatype ndarray = U8 image | F64 fmat

definition detect_edges :: "cv \<Rightarrow> image \<Rightarrow> string \<Rightarrow> int \<Rightarrow> int \<Rightarrow> error + ndarray" where
  "detect_edges lib img method low_threshold high_threshold =
     (if method = ''canny'' then
        (case Canny lib img low_threshold high_threshold of
           Inl e \<Rightarrow> Inl e
         | Inr edges \<Rightarrow> Inr (U8 edges))
      else if method = ''sobel'' then
        (case cvtColor_BGR2GRAY lib img of
           Inl e \<Rightarrow> Inl e
         | Inr gray \<Rightarrow>
             (case Sobel lib gray CV_64F 1 0 5 of
                Inl e \<Rightarrow> Inl e
              | Inr edges \<Rightarrow> Inr (F64 edges)))
      else Inl (ValueError (''Invalid edge detection method: '' @ method)))"

section \<open>Properties\<close>

lemma cvtColor_never_ValueError: "cvtColor_BGR2GRAY lib src \<noteq> Inl (ValueError msg)"
  by (simp add: cvtColor_BGR2GRAY_def)

text \<open>
  Claim C9. \<open>apply_threshold\<close> converts to grayscale before it looks at \<open>method\<close>: when
  the conversion fails, its error (a \<open>cv2.error\<close>, never the invalid-argument error) is
  the result whatever \<open>method\<close> is, and the invalid-argument error is returned only after
  a conversion that succeeded.
\<close>

theorem apply_threshold_converts_first:
  "(cvtColor_BGR2GRAY lib img = Inl e \<longrightarrow>
      apply_threshold lib img method block_size offset = Inl e \<and> (\<forall>msg. e \<noteq> ValueError msg)) \<and>
   (apply_threshold lib img method block_size offset = Inl (ValueError msg') \<longrightarrow>
      (\<exists>gray. cvtColor_BGR2GRAY lib img = Inr gray))"
proof (intro conjI impI)
  assume "cvtColor_BGR2GRAY lib img = Inl e"
  then show "apply_threshold lib img method block_size offset = Inl e"
    by (simp add: apply_threshold_def)
next
  assume "cvtColor_BGR2GRAY lib img = Inl e"
  then show "\<forall>msg. e \<noteq> ValueError msg"
    using cvtColor_never_ValueError [of lib img] by auto
next
  assume a: "apply_threshold lib img method block_size offset = Inl (ValueError msg')"
  show "\<exists>gray. cvtColor_BGR2GRAY lib img = Inr gray"
  proof (cases "cvtColor_BGR2GRAY lib img")
    case (Inl e')
    with a have "e' = ValueError msg'" by (simp add: apply_threshold_def)
    with Inl show ?thesis using cvtColor_never_ValueError [of lib img msg'] by simp
  next
    case (Inr gray)
    then show ?thesis by blast
  qed
qed

theorem apply_threshold_converts_first_witness:
  "(\<forall>lib. apply_threshold lib [[[7]]] ''bogus'' 5 2 =
      Inl (CvError ''cvtColor: invalid number of channels in input image'')) \<and>
   (\<forall>lib. apply_threshold lib [[[1, 2, 3]]] ''bogus'' 5 2 =
      Inl (ValueError ''Invalid thresholding method: bogus'') \<and>
      (\<exists>gray. cvtColor_BGR2GRAY lib [[[1, 2, 3]]] = Inr gray))"
proof (intro conjI allI)
  fix lib :: cv
  have c: "cvtColor_BGR2GRAY lib [[[7]]] =
      Inl (CvError ''cvtColor: invalid number of channels in input image'')"
    by (simp add: cvtColor_BGR2GRAY_def well_formed_def rows_def cols_def channels_def)
  from apply_threshold_converts_first [of lib "[[[7]]]" _ "''bogus''" 5 2] c
  show "apply_threshold lib [[[7]]] ''bogus'' 5 2 =
      Inl (CvError ''cvtColor: invalid number of channels in input image'')"
    by blast
next
  fix lib :: cv
  show v: "apply_threshold lib [[[1, 2, 3]]] ''bogus'' 5 2 =
      Inl (ValueError ''Invalid thresholding method: bogus'')"
    by (simp add: apply_threshold_def cvtColor_BGR2GRAY_def well_formed_def rows_def cols_def
        channels_def)
  from apply_threshold_converts_first [of lib "[[[1, 2, 3]]]" _ "''bogus''" 5 2] v
  show "\<exists>gray. cvtColor_BGR2GRAY lib [[[1, 2, 3]]] = Inr gray"
    by blast
qed

text \<open>
  Claim C2, as the code has it. \<open>detect_edges\<close> answers a method other than \<open>'canny'\<close> and
  \<open>'sobel'\<close> with the invalid-argument error naming the method, for every image.
  \<open>apply_threshold\<close> answers a method other than \<open>'otsu'\<close> and \<open>'adaptive'\<close> with that
  error for every image the grayscale conversion accepts (non-empty, 3 or 4 channels).
  Neither function returns the invalid-argument error for an accepted literal.
\<close>

theorem invalid_method_errors:
  "(m \<noteq> ''canny'' \<and> m \<noteq> ''sobel'' \<longrightarrow>
      detect_edges lib img m lo hi = Inl (ValueError (''Invalid edge detection method: '' @ m))) \<and>
   (m \<noteq> ''otsu'' \<and> m \<noteq> ''adaptive'' \<and> well_formed img \<and> (channels img = 3 \<or> channels img = 4) \<longrightarrow>
      apply_threshold lib img m bs off = Inl (ValueError (''Invalid thresholding method: '' @ m))) \<and>
   (m = ''otsu'' \<or> m = ''adaptive'' \<longrightarrow> apply_threshold lib img m bs off \<noteq> Inl (ValueError msg)) \<and>
   (m = ''canny'' \<or> m = ''sobel'' \<longrightarrow> detect_edges lib img m lo hi \<noteq> Inl (ValueError msg))"
  by (auto simp: detect_edges_def apply_threshold_def cvtColor_BGR2GRAY_def
      threshold_BINARY_OTSU_def adaptiveThreshold_MEAN_BINARY_def Canny_def Sobel_def lift_def Let_def
      split: sum.splits if_splits prod.splits)

theorem invalid_method_errors_witness:
  "\<forall>lib.
     detect_edges lib [[[7]]] ''laplace'' 50 150 =
       Inl (ValueError ''Invalid edge detection method: laplace'') \<and>
     apply_threshold lib [[[4, 5, 6], [7, 8, 9]]] ''triangle'' 5 2 =
       Inl (ValueError ''Invalid thresholding method: triangle'') \<and>
     (\<forall>msg. apply_threshold lib [[[4, 5, 6], [7, 8, 9]]] ''otsu'' 5 2 \<noteq> Inl (ValueError msg)) \<and>
     (\<forall>msg. detect_edges lib [[[7]]] ''sobel'' 50 150 \<noteq> Inl (ValueError msg))"
proof (intro allI conjI)
  fix lib :: cv and msg :: string
  have wf: "well_formed [[[4, 5, 6], [7, 8, 9]]] \<and> channels [[[4, 5, 6], [7, 8, 9]]] = 3"
    by (simp add: well_formed_def rows_def cols_def channels_def)
  show "detect_edges lib [[[7]]] ''laplace'' 50 150 =
      Inl (ValueError ''Invalid edge detection method: laplace'')"
    using invalid_method_errors [where m = "''laplace''" and lib = lib and img = "[[[7]]]" and lo = 50 and hi = 150] by simp
  show "apply_threshold lib [[[4, 5, 6], [7, 8, 9]]] ''triangle'' 5 2 =
      Inl (ValueError ''Invalid thresholding method: triangle'')"
    using invalid_method_errors [where m = "''triangle''" and lib = lib and img = "[[[4, 5, 6], [7, 8, 9]]]"
        and bs = 5 and off = 2] wf
    by simp
  show "apply_threshold lib [[[4, 5, 6], [7, 8, 9]]] ''otsu'' 5 2 \<noteq> Inl (ValueError msg)"
    using invalid_method_errors [where m = "''otsu''" and lib = lib and img = "[[[4, 5, 6], [7, 8, 9]]]"
        and bs = 5 and off = 2 and msg = msg]
    by simp
  show "detect_edges lib [[[7]]] ''sobel'' 50 150 \<noteq> Inl (ValueError msg)"
    using invalid_method_errors [where m = "''sobel''" and lib = lib and img = "[[[7]]]" and lo = 50
        and hi = 150 and msg = msg] by simp
qed

text \<open>
  Claim C2 as stated fails: on a single-channel image \<open>apply_threshold\<close> with the
  method \<open>'bogus'\<close> ends in the conversion's \<open>cv2.error\<close>, not in the invalid-argument error.
\<close>

theorem apply_threshold_bogus_gray_counterexample:
  "\<forall>lib.
     apply_threshold lib [[[0]], [[255]]] ''bogus'' 5 2 =
       Inl (CvError ''cvtColor: invalid number of channels in input image'') \<and>
     (\<forall>msg. apply_threshold lib [[[0]], [[255]]] ''bogus'' 5 2 \<noteq> Inl (ValueError msg))"
  by (simp add: apply_threshold_def cvtColor_BGR2GRAY_def well_formed_def rows_def cols_def
      channels_def)

subsection \<open>Arrays built by index\<close>

lemma rows_build: "rows (build h w f) = h"
  by (simp add: rows_def build_def)

lemma cols_build: "0 < h \<Longrightarrow> cols (build h w f) = w"
  by (simp add: cols_def build_def upt_conv_Cons)

lemma build_row_lengths: "list_all (\<lambda>r. length r = w) (build h w f)"
  by (simp add: build_def list_all_iff)

lemma build_nth: "y < h \<Longrightarrow> x < w \<Longrightarrow> build h w f ! y ! x = f y x"
  by (simp add: build_def)




text \<open>
  Claim C1, on the code. \<open>reduce_noise\<close> passes its numbers by position, so in the
  underlying call \<open>strength\<close> is OpenCV's \<open>h\<close>, \<open>h\<close> is \<open>hColor\<close>, \<open>hColor\<close> is the
  template window size and \<open>templateWindowSize\<close> is the search window size: the template
  patch is set by the wrapper's \<open>hColor\<close>, not by its \<open>templateWindowSize\<close>.
\<close>

theorem reduce_noise_arguments:
  "reduce_noise lib img strength h hColor templateWindowSize =
     lift (cv_nlmeans lib
       \<lparr>nlm_src = img, nlm_dst = None, nlm_h = strength, nlm_hColor = h,
        nlm_templateWindowSize = hColor, nlm_searchWindowSize = templateWindowSize\<rparr>)"
  by (simp add: reduce_noise_def fastNlMeansDenoisingColored_def)

theorem reduce_noise_arguments_witness:
  "\<forall>lib. reduce_noise lib [[[0, 0, 0]]] 20 10 7 5 =
     lift (cv_nlmeans lib
       \<lparr>nlm_src = [[[0, 0, 0]]], nlm_dst = None, nlm_h = 20, nlm_hColor = 10,
        nlm_templateWindowSize = 7, nlm_searchWindowSize = 5\<rparr>)"
  using reduce_noise_arguments [of _ "[[[0, 0, 0]]]" 20 10 7 5] by simp

text \<open>
  Claim C10. With \<open>'canny'\<close> the image goes to the Canny detector as it is, with no
  grayscale conversion; with \<open>'sobel'\<close> it is converted to grayscale first and the Sobel
  operator is called once, for a \<open>CV_64F\<close> derivative in x only (\<open>dx = 1\<close>, \<open>dy = 0\<close>,
  \<open>ksize = 5\<close>).
\<close>

theorem detect_edges_paths:
  "detect_edges lib img ''canny'' low_threshold high_threshold =
     (case cv_canny lib img low_threshold high_threshold of
        Inl m \<Rightarrow> Inl (CvError m)
      | Inr edges \<Rightarrow> Inr (U8 edges)) \<and>
   detect_edges lib img ''sobel'' low_threshold high_threshold =
     (case cvtColor_BGR2GRAY lib img of
        Inl e \<Rightarrow> Inl e
      | Inr gray \<Rightarrow>
          (case cv_sobel lib gray CV_64F 1 0 5 of
             Inl m \<Rightarrow> Inl (CvError m)
           | Inr edges \<Rightarrow> Inr (F64 edges)))"
  by (simp add: detect_edges_def Canny_def Sobel_def lift_def split: sum.splits)

theorem detect_edges_paths_witness:
  "\<forall>lib.
     detect_edges lib [[[7]]] ''canny'' 50 150 =
       (case cv_canny lib [[[7]]] 50 150 of
          Inl m \<Rightarrow> Inl (CvError m)
        | Inr edges \<Rightarrow> Inr (U8 edges)) \<and>
     detect_edges lib [[[7]]] ''sobel'' 50 150 =
       Inl (CvError ''cvtColor: invalid number of channels in input image'') \<and>
     detect_edges lib [[[1, 2, 3]]] ''sobel'' 50 150 =
       (case cv_sobel lib [[[cv_luma lib 1 2 3]]] CV_64F 1 0 5 of
          Inl m \<Rightarrow> Inl (CvError m)
        | Inr edges \<Rightarrow> Inr (F64 edges))"
proof (intro allI conjI)
  fix lib :: cv
  have g1: "cvtColor_BGR2GRAY lib [[[7]]] =
      Inl (CvError ''cvtColor: invalid number of channels in input image'')"
    by (simp add: cvtColor_BGR2GRAY_def well_formed_def rows_def cols_def channels_def)
  have g3: "cvtColor_BGR2GRAY lib [[[1, 2, 3]]] = Inr [[[cv_luma lib 1 2 3]]]"
    by (simp add: cvtColor_BGR2GRAY_def well_formed_def rows_def cols_def channels_def)
  show "detect_edges lib [[[7]]] ''canny'' 50 150 =
       (case cv_canny lib [[[7]]] 50 150 of
          Inl m \<Rightarrow> Inl (CvError m)
        | Inr edges \<Rightarrow> Inr (U8 edges))"
    using detect_edges_paths [of lib "[[[7]]]" 50 150] by simp
  show "detect_edges lib [[[7]]] ''sobel'' 50 150 =
       Inl (CvError ''cvtColor: invalid number of channels in input image'')"
    using detect_edges_paths [of lib "[[[7]]]" 50 150] g1 by simp
  show "detect_edges lib [[[1, 2, 3]]] ''sobel'' 50 150 =
       (case cv_sobel lib [[[cv_luma lib 1 2 3]]] CV_64F 1 0 5 of
          Inl m \<Rightarrow> Inl (CvError m)
        | Inr edges \<Rightarrow> Inr (F64 edges))"
    using detect_edges_paths [of lib "[[[1, 2, 3]]]" 50 150] g3 by simp
qed

subsection \<open>Shapes and samples\<close>

lemma saturate_u8_255: "saturate_u8 255 = 255"
  by (simp add: saturate_u8_def)

lemma well_formed_build:
  assumes "0 < h" and "0 < w" and "\<And>y x. length (f y x) = n" and "0 < n"
  shows "well_formed (build h w f) \<and> channels (build h w f) = n"
proof -
  have c: "channels (build h w f) = n"
    using assms by (simp add: channels_def build_def upt_conv_Cons)
  have "well_formed (build h w f)"
    unfolding well_formed_def c rows_build cols_build [OF assms(1)]
    using assms by (simp add: build_def list_all_iff)
  with c show ?thesis by simp
qed

lemma samples_build: "s \<in> set (samples (build h w f)) \<Longrightarrow> \<exists>y x. s \<in> set (f y x)"
  by (auto simp: samples_def build_def)

lemma samples_map: "samples (map (map (map g)) img) = map g (samples img)"
  by (simp add: samples_def map_concat)

lemma well_formed_map:
  assumes wf: "well_formed img" and len: "\<And>p. length p = channels img \<Longrightarrow> length (f p) = n"
    and n: "0 < n"
  shows "well_formed (map (map f) img)" and "channels (map (map f) img) = n"
    and "rows (map (map f) img) = rows img" and "cols (map (map f) img) = cols img"
proof -
  from wf obtain r rs where img: "img = r # rs"
    by (cases img) (auto simp: well_formed_def rows_def)
  from wf img obtain p ps where r: "r = p # ps"
    by (cases r) (auto simp: well_formed_def cols_def)
  have lp: "length p = channels img"
    using img r by (simp add: channels_def)
  show ch: "channels (map (map f) img) = n"
    using img r len [OF lp] by (simp add: channels_def)
  show ro: "rows (map (map f) img) = rows img"
    by (simp add: rows_def)
  show co: "cols (map (map f) img) = cols img"
    using img by (simp add: cols_def)
  show "well_formed (map (map f) img)"
    unfolding well_formed_def ch ro co
    using wf n len by (auto simp: well_formed_def list_all_iff)
qed

lemma cvtColor_ok:
  assumes "well_formed img" and "channels img = 3"
  shows "\<exists>gray. cvtColor_BGR2GRAY lib img = Inr gray \<and> well_formed gray \<and> channels gray = 1 \<and>
           rows gray = rows img \<and> cols gray = cols img"
proof -
  let ?g = "map (map (\<lambda>p. [cv_luma lib (p ! 0) (p ! 1) (p ! 2)])) img"
  have "cvtColor_BGR2GRAY lib img = Inr ?g"
    using assms by (simp add: cvtColor_BGR2GRAY_def)
  moreover have "well_formed ?g" "channels ?g = 1" "rows ?g = rows img" "cols ?g = cols img"
    using well_formed_map [OF assms(1), of "\<lambda>p. [cv_luma lib (p ! 0) (p ! 1) (p ! 2)]" 1]
    by simp_all
  ultimately show ?thesis by blast
qed

lemma threshold_ok:
  assumes "well_formed gray" and "channels gray = 1"
  shows "\<exists>level out. threshold_BINARY_OTSU lib gray 0 255 = Inr (level, out) \<and> well_formed out \<and>
           channels out = 1 \<and> rows out = rows gray \<and> cols out = cols gray \<and>
           set (samples out) \<subseteq> {0, 255}"
proof -
  let ?h = "\<lambda>s. if cv_otsu lib gray < uint s then saturate_u8 255 else (0 :: sample)"
  let ?out = "map (map (map ?h)) gray"
  have "threshold_BINARY_OTSU lib gray 0 255 = Inr (cv_otsu lib gray, ?out)"
    using assms by (simp add: threshold_BINARY_OTSU_def Let_def)
  moreover have "well_formed ?out" "channels ?out = 1" "rows ?out = rows gray" "cols ?out = cols gray"
    using well_formed_map [OF assms(1), of "map ?h" 1] assms(2) by simp_all
  moreover have "set (samples ?out) \<subseteq> {0, 255}"
    unfolding samples_map by (auto simp: saturate_u8_255)
  ultimately show ?thesis by blast
qed

lemma adaptive_ok:
  assumes "well_formed gray" and "channels gray = 1" and "odd block_size" and "1 < block_size"
  shows "\<exists>out. adaptiveThreshold_MEAN_BINARY lib gray 255 block_size offset = Inr out \<and>
           well_formed out \<and> channels out = 1 \<and> rows out = rows gray \<and> cols out = cols gray \<and>
           set (samples out) \<subseteq> {0, 255}"
proof -
  let ?f = "\<lambda>y x. [if - offset < sample_at gray y x 0 - cv_box_mean lib gray block_size y x
                     then saturate_u8 255 else (0 :: sample)]"
  let ?out = "build (rows gray) (cols gray) ?f"
  have pos: "0 < rows gray" "0 < cols gray"
    using assms(1) by (simp_all add: well_formed_def)
  have m: "block_size mod 2 = 1"
    using assms(3) by presburger
  have "adaptiveThreshold_MEAN_BINARY lib gray 255 block_size offset = Inr ?out"
    using assms m by (simp add: adaptiveThreshold_MEAN_BINARY_def)
  moreover have "well_formed ?out \<and> channels ?out = 1"
    by (rule well_formed_build) (use pos in simp_all)
  moreover have "rows ?out = rows gray" "cols ?out = cols gray"
    using pos by (simp_all add: rows_build cols_build)
  moreover have "set (samples ?out) \<subseteq> {0, 255}"
  proof
    fix s assume "s \<in> set (samples ?out)"
    then obtain y x where "s \<in> set (?f y x)"
      using samples_build by blast
    then show "s \<in> {0, 255}"
      by (auto simp: saturate_u8_255 split: if_splits)
  qed
  ultimately show ?thesis by blast
qed

text \<open>
  Claim C3. For every non-empty 3-channel image \<open>apply_threshold\<close> returns, with
  \<open>'otsu'\<close> and with \<open>'adaptive'\<close> (whose block size must be odd and greater than 1, as the
  default 5 is), a single-channel image of the same height and width whose samples are all
  0 or 255.
\<close>

theorem apply_threshold_binary:
  assumes "well_formed img" and "channels img = 3"
  shows "(\<exists>out. apply_threshold lib img ''otsu'' block_size offset = Inr out \<and>
            rows out = rows img \<and> cols out = cols img \<and> channels out = 1 \<and>
            set (samples out) \<subseteq> {0, 255}) \<and>
         (odd block_size \<and> 1 < block_size \<longrightarrow>
           (\<exists>out. apply_threshold lib img ''adaptive'' block_size offset = Inr out \<and>
              rows out = rows img \<and> cols out = cols img \<and> channels out = 1 \<and>
              set (samples out) \<subseteq> {0, 255}))"
proof (intro conjI impI)
  from cvtColor_ok [OF assms, of lib] obtain gray where
    g: "cvtColor_BGR2GRAY lib img = Inr gray" "well_formed gray" "channels gray = 1"
      "rows gray = rows img" "cols gray = cols img"
    by blast
  from threshold_ok [OF g(2,3), of lib] obtain level out where
    "threshold_BINARY_OTSU lib gray 0 255 = Inr (level, out)" "channels out = 1"
    "rows out = rows gray" "cols out = cols gray" "set (samples out) \<subseteq> {0, 255}"
    by blast
  then show "\<exists>out. apply_threshold lib img ''otsu'' block_size offset = Inr out \<and>
            rows out = rows img \<and> cols out = cols img \<and> channels out = 1 \<and>
            set (samples out) \<subseteq> {0, 255}"
    using g by (simp add: apply_threshold_def)
  assume "odd block_size \<and> 1 < block_size"
  with adaptive_ok [OF g(2,3), of block_size lib offset] obtain out' where
    "adaptiveThreshold_MEAN_BINARY lib gray 255 block_size offset = Inr out'" "channels out' = 1"
    "rows out' = rows gray" "cols out' = cols gray" "set (samples out') \<subseteq> {0, 255}"
    by blast
  then show "\<exists>out. apply_threshold lib img ''adaptive'' block_size offset = Inr out \<and>
              rows out = rows img \<and> cols out = cols img \<and> channels out = 1 \<and>
              set (samples out) \<subseteq> {0, 255}"
    using g by (simp add: apply_threshold_def)
qed

theorem apply_threshold_binary_witness:
  "\<forall>lib.
     (\<exists>out. apply_threshold lib [[[10, 20, 30], [200, 210, 220]]] ''otsu'' 5 2 = Inr out \<and>
        rows out = 1 \<and> cols out = 2 \<and> channels out = 1 \<and> set (samples out) \<subseteq> {0, 255}) \<and>
     (\<exists>out. apply_threshold lib [[[10, 20, 30], [200, 210, 220]]] ''adaptive'' 5 2 = Inr out \<and>
        rows out = 1 \<and> cols out = 2 \<and> channels out = 1 \<and> set (samples out) \<subseteq> {0, 255})"
proof
  fix lib :: cv
  let ?img = "[[[10, 20, 30], [200, 210, 220]]] :: image"
  have wf: "well_formed ?img" and ch: "channels ?img = 3"
    and rc: "rows ?img = 1" "cols ?img = 2"
    by (simp_all add: well_formed_def rows_def cols_def channels_def)
  from apply_threshold_binary [OF wf ch, of lib 5 2]
  show "(\<exists>out. apply_threshold lib ?img ''otsu'' 5 2 = Inr out \<and>
        rows out = 1 \<and> cols out = 2 \<and> channels out = 1 \<and> set (samples out) \<subseteq> {0, 255}) \<and>
     (\<exists>out. apply_threshold lib ?img ''adaptive'' 5 2 = Inr out \<and>
        rows out = 1 \<and> cols out = 2 \<and> channels out = 1 \<and> set (samples out) \<subseteq> {0, 255})"
    unfolding rc by simp
qed

subsection \<open>Contrast stretching\<close>

lemma cvRound_of_int: "cvRound (of_int n) = n"
  by (simp add: cvRound_def Let_def)

lemma sample_le_255: "(s :: sample) \<le> 255"
proof -
  have "uint s < 256" using uint_bounded [of s] by simp
  then show ?thesis by (simp add: word_le_def)
qed

lemma stretch_top:
  fixes h l :: rat
  assumes "l < h"
  shows "h * (255 * (1 / (h - l))) + (0 - l * (255 * (1 / (h - l)))) = 255"
proof -
  have nz: "h - l \<noteq> 0" using assms by simp
  have "h * (255 * (1 / (h - l))) + (0 - l * (255 * (1 / (h - l)))) = 255 * ((h - l) * (1 / (h - l)))"
    by (simp only: algebra_simps)
  also have "\<dots> = 255" using nz by simp
  finally show ?thesis .
qed

lemma stretch_top_sample:
  fixes a b :: sample
  assumes lt: "uint a < uint b"
  shows "of_int (uint b) * (255 * (1 / of_int (uint b - uint a))) +
     (0 - of_int (uint a) * (255 * (1 / of_int (uint b - uint a)))) = (255 :: rat)"
proof -
  have lt': "(of_int (uint a) :: rat) < of_int (uint b)"
    using lt by (simp only: of_int_less_iff)
  show ?thesis
    unfolding of_int_diff by (rule stretch_top [OF lt'])
qed

text \<open>
  Claim C5. For every non-empty image with two samples that differ, \<open>contrast_stretch\<close>
  returns an image whose least sample is 0 and whose greatest sample is 255.
\<close>

theorem contrast_stretch_full_range:
  assumes wf: "well_formed img"
    and a: "a \<in> set (samples img)" and b: "b \<in> set (samples img)" and ab: "a \<noteq> b"
  shows "\<exists>out. contrast_stretch img = Inr out \<and>
           Min (set (samples out)) = 0 \<and> Max (set (samples out)) = 255"
proof -
  let ?S = "set (samples img)"
  let ?lo = "uint (Min ?S)" and ?hi = "uint (Max ?S)"
  define g :: "sample \<Rightarrow> sample" where
    "g = (\<lambda>s. saturate_u8 (cvRound (of_int (uint s) * (255 * (1 / of_int (?hi - ?lo))) +
            (0 - of_int ?lo * (255 * (1 / of_int (?hi - ?lo)))))))"
  define out where "out = map (map (map g)) img"
  have fin: "finite ?S" and ne: "?S \<noteq> {}" using a by auto
  have "Min ?S \<le> a" "Min ?S \<le> b" "a \<le> Max ?S" "b \<le> Max ?S"
    using a b fin by simp_all
  with ab have "Min ?S < Max ?S" by auto
  then have lt: "?lo < ?hi" by (simp add: word_less_def)
  have r: "contrast_stretch img = Inr out"
    using wf lt by (simp add: contrast_stretch_def normalize_MINMAX_def Let_def out_def g_def)
  have so: "set (samples out) = g ` ?S"
    by (simp add: out_def samples_map)
  have "of_int ?lo * (255 * (1 / of_int (?hi - ?lo))) +
      (0 - of_int ?lo * (255 * (1 / of_int (?hi - ?lo)))) = (0 :: rat)"
    by (simp only: add_diff_eq add_0_right diff_self)
  then have g_lo: "g (Min ?S) = 0"
    unfolding g_def using cvRound_of_int [of 0] by (simp add: saturate_u8_def)
  have g_hi: "g (Max ?S) = 255"
    unfolding g_def stretch_top_sample [OF lt] using cvRound_of_int [of 255]
    by (simp add: saturate_u8_def)
  have mem: "Min ?S \<in> ?S" "Max ?S \<in> ?S" using fin ne by simp_all
  have "g (Min ?S) \<in> g ` ?S" using mem(1) by (rule imageI)
  then have in0: "0 \<in> set (samples out)" unfolding so g_lo .
  have "g (Max ?S) \<in> g ` ?S" using mem(2) by (rule imageI)
  then have in255: "255 \<in> set (samples out)" unfolding so g_hi .
  have "Min (set (samples out)) = 0"
    by (rule Min_eqI) (use in0 in simp_all)
  moreover have "Max (set (samples out)) = 255"
    by (rule Max_eqI) (use in255 sample_le_255 in simp_all)
  ultimately show ?thesis using r by blast
qed

theorem contrast_stretch_full_range_witness:
  "\<exists>out. contrast_stretch [[[10], [200]], [[10], [110]]] = Inr out \<and>
      Min (set (samples out)) = 0 \<and> Max (set (samples out)) = 255"
proof -
  let ?img = "[[[10], [200]], [[10], [110]]] :: image"
  have wf: "well_formed ?img"
    by (simp add: well_formed_def rows_def cols_def channels_def)
  have a: "10 \<in> set (samples ?img)" and b: "200 \<in> set (samples ?img)"
    by (simp_all add: samples_def)
  have ab: "(10 :: sample) \<noteq> 200" by simp
  from contrast_stretch_full_range [OF wf a b ab] show ?thesis .
qed

lemma well_formed_replicate:
  assumes "0 < h" and "0 < w" and "p \<noteq> []"
  shows "well_formed (replicate h (replicate w p))"
    and "rows (replicate h (replicate w p)) = h"
    and "cols (replicate h (replicate w p)) = w"
    and "channels (replicate h (replicate w p)) = length p"
proof -
  from assms obtain h' w' where hw: "h = Suc h'" "w = Suc w'"
    by (cases h; cases w) auto
  show r: "rows (replicate h (replicate w p)) = h"
    by (simp add: rows_def)
  show c: "cols (replicate h (replicate w p)) = w"
    by (simp add: cols_def hw)
  show ch: "channels (replicate h (replicate w p)) = length p"
    by (simp add: channels_def hw)
  show "well_formed (replicate h (replicate w p))"
    unfolding well_formed_def r c ch using assms by (simp add: list_all_iff)
qed

lemma set_samples_replicate:
  assumes "0 < h" and "0 < w"
  shows "set (samples (replicate h (replicate w p))) = set p"
  using assms by (auto simp: samples_def)

lemma contrast_stretch_constant:
  assumes "0 < h" and "0 < w" and "0 < n"
  shows "contrast_stretch (replicate h (replicate w (replicate n c))) =
           Inr (replicate h (replicate w (replicate n 0)))"
proof -
  let ?img = "replicate h (replicate w (replicate n c))"
  have wf: "well_formed ?img"
    using assms by (intro well_formed_replicate) simp_all
  have "set (samples ?img) = {c}"
    using assms by (simp add: set_samples_replicate)
  then have mm: "Min (set (samples ?img)) = c" "Max (set (samples ?img)) = c"
    by simp_all
  show ?thesis
    using wf cvRound_of_int [of 0]
    by (simp add: contrast_stretch_def normalize_MINMAX_def Let_def mm saturate_u8_def)
qed

text \<open>
  Claim C6. The 100 by 100 image whose every pixel is (128, 128, 128) is mapped by
  \<open>contrast_stretch\<close> to the 100 by 100 image whose every pixel is (0, 0, 0): the range of
  the input is zero, so the scale is 0.
\<close>

theorem contrast_stretch_constant_128:
  "contrast_stretch (replicate 100 (replicate 100 [128, 128, 128])) =
     Inr (replicate 100 (replicate 100 [0, 0, 0]))"
proof -
  have p: "[c, c, c] = replicate 3 c" for c :: sample
    by (simp add: numeral_3_eq_3)
  show ?thesis
    unfolding p by (rule contrast_stretch_constant) simp_all
qed

subsection \<open>Sharpening\<close>

lemma border_range:
  "0 < len \<Longrightarrow> 0 \<le> borderInterpolate_REFLECT_101 p len \<and> borderInterpolate_REFLECT_101 p len < len"
proof (induction p len rule: borderInterpolate_REFLECT_101.induct)
  case (1 p len)
  show ?case
  proof (cases "0 \<le> p \<and> p < len")
    case True
    then show ?thesis by (simp add: borderInterpolate_REFLECT_101.simps [of p len])
  next
    case False
    show ?thesis
    proof (cases "len \<le> 1")
      case True
      with False "1.prems" show ?thesis
        by (simp add: borderInterpolate_REFLECT_101.simps [of p len])
    next
      case len: False
      from "1.IH" [OF False len "1.prems"] False len show ?thesis
        by (simp add: borderInterpolate_REFLECT_101.simps [of p len])
    qed
  qed
qed

lemma mirror_less: "0 < len \<Longrightarrow> mirror p len < len"
  using border_range [of "int len" p] by (simp add: mirror_def nat_less_iff)

lemma mirror_inside: "y < len \<Longrightarrow> mirror (int y) len = y"
  by (simp add: mirror_def borderInterpolate_REFLECT_101.simps [of "int y"])

lemma saturate_u8_uint: "saturate_u8 (uint s) = s"
proof -
  have "uint s < 256" using uint_bounded [of s] by simp
  then show ?thesis by (simp add: saturate_u8_def)
qed

lemma correlate_sharpen:
  assumes "y < rows src" and "x < cols src"
  shows "saturate_u8 (correlate src sharpen_kernel y x c) = sharpened_sample src y x c"
proof -
  have "correlate src sharpen_kernel y x c =
      5 * sample_at src y x c
        - sample_at src (mirror (int y - 1) (rows src)) x c
        - sample_at src (mirror (1 + int y) (rows src)) x c
        - sample_at src y (mirror (int x - 1) (cols src)) c
        - sample_at src y (mirror (1 + int x) (cols src)) c"
    using assms by (simp add: correlate_def sharpen_kernel_def mirror_inside)
  then show ?thesis by (simp only: sharpened_sample_def add.commute [of 1])
qed

text \<open>
  Claim C8. \<open>sharpen\<close> filters with exactly the kernel of rows (0, -1, 0), (-1, 5, -1),
  (0, -1, 0). For every non-empty image the result has the shape of the input, and each of
  its samples is the saturated sum of five times the sample there minus its four
  edge-adjacent neighbours, the corners having no weight.
\<close>

theorem sharpen_kernel_and_shape:
  assumes wf: "well_formed img"
  shows "sharpen img = filter2D img [[0, -1, 0], [-1, 5, -1], [0, -1, 0]] \<and>
         (\<exists>out. sharpen img = Inr out \<and> well_formed out \<and>
            rows out = rows img \<and> cols out = cols img \<and> channels out = channels img \<and>
            (\<forall>y < rows img. \<forall>x < cols img. \<forall>c < channels img.
               out ! y ! x ! c = sharpened_sample img y x c))"
proof
  show "sharpen img = filter2D img [[0, -1, 0], [-1, 5, -1], [0, -1, 0]]"
    by (simp add: sharpen_def sharpen_kernel_def)
  let ?f = "\<lambda>y x. map (\<lambda>c. saturate_u8 (correlate img sharpen_kernel y x c)) [0..<channels img]"
  let ?out = "build (rows img) (cols img) ?f"
  have pos: "0 < rows img" "0 < cols img" "0 < channels img"
    using wf by (simp_all add: well_formed_def)
  have r: "sharpen img = Inr ?out"
    using wf by (simp add: sharpen_def filter2D_def sharpen_kernel_def)
  have w: "well_formed ?out \<and> channels ?out = channels img"
    by (rule well_formed_build) (use pos in simp_all)
  have rc: "rows ?out = rows img" "cols ?out = cols img"
    using pos by (simp_all add: rows_build cols_build)
  have px: "?out ! y ! x ! c = sharpened_sample img y x c"
    if "y < rows img" "x < cols img" "c < channels img" for y x c
    using that by (simp add: build_nth correlate_sharpen)
  show "\<exists>out. sharpen img = Inr out \<and> well_formed out \<and>
            rows out = rows img \<and> cols out = cols img \<and> channels out = channels img \<and>
            (\<forall>y < rows img. \<forall>x < cols img. \<forall>c < channels img.
               out ! y ! x ! c = sharpened_sample img y x c)"
    using r w rc px by blast
qed

theorem sharpen_kernel_and_shape_witness:
  "\<exists>out. sharpen [[[10], [200]], [[10], [10]]] = Inr out \<and>
      rows out = 2 \<and> cols out = 2 \<and> channels out = 1 \<and>
      out ! 0 ! 1 ! 0 = 255 \<and> out ! 1 ! 0 ! 0 = 10"
proof -
  let ?img = "[[[10], [200]], [[10], [10]]] :: image"
  have wf: "well_formed ?img"
    and d: "rows ?img = 2" "cols ?img = 2" "channels ?img = 1"
    by (simp_all add: well_formed_def rows_def cols_def channels_def)
  have m: "mirror (- 1) 2 = 1" "mirror 0 2 = 0" "mirror 1 2 = 1" "mirror 2 2 = 0"
    by (simp_all add: mirror_def borderInterpolate_REFLECT_101.simps)
  have v: "sharpened_sample ?img 0 1 0 = 255" "sharpened_sample ?img 1 0 0 = 10"
    by (simp_all add: sharpened_sample_def d m sample_at_def saturate_u8_def)
  from sharpen_kernel_and_shape [OF wf] obtain out where
    o: "sharpen ?img = Inr out" "rows out = rows ?img" "cols out = cols ?img"
      "channels out = channels ?img"
    and px: "\<forall>y < rows ?img. \<forall>x < cols ?img. \<forall>c < channels ?img.
               out ! y ! x ! c = sharpened_sample ?img y x c"
    by blast
  from px have "out ! 0 ! 1 ! 0 = sharpened_sample ?img 0 1 0"
    and "out ! 1 ! 0 ! 0 = sharpened_sample ?img 1 0 0"
    unfolding d by simp_all
  with o v show ?thesis unfolding d by auto
qed

lemma build_cong:
  assumes "\<And>y x. y < h \<Longrightarrow> x < w \<Longrightarrow> f y x = g y x"
  shows "build h w f = build h w g"
  using assms by (simp add: build_def)

lemma build_const: "build h w (\<lambda>y x. v) = replicate h (replicate w v)"
  by (simp add: build_def map_replicate_const)

lemma sample_at_flat:
  "y < h \<Longrightarrow> x < w \<Longrightarrow> sample_at (replicate h (replicate w p)) y x c = uint (p ! c)"
  by (simp add: sample_at_def)

lemma sharpened_sample_flat:
  assumes "y < h" and "x < w"
  shows "sharpened_sample (replicate h (replicate w p)) y x c = p ! c"
proof -
  let ?img = "replicate h (replicate w p)"
  from assms obtain h' where h: "h = Suc h'"
    by (cases h) auto
  have rc: "rows ?img = h" "cols ?img = w"
    by (simp_all add: rows_def cols_def h)
  have m: "mirror q h < h" "mirror q w < w" for q
    using assms by (simp_all add: mirror_less)
  show ?thesis
    unfolding sharpened_sample_def rc
    using assms by (simp add: sample_at_flat m saturate_u8_uint)
qed

lemma sharpen_flat:
  assumes "0 < h" and "0 < w" and "p \<noteq> []"
  shows "sharpen (replicate h (replicate w p)) = Inr (replicate h (replicate w p))"
proof -
  let ?img = "replicate h (replicate w p)"
  note wf = well_formed_replicate [OF assms]
  have "sharpen ?img =
      Inr (build h w (\<lambda>y x. map (\<lambda>c. saturate_u8 (correlate ?img sharpen_kernel y x c)) [0..<length p]))"
    using wf by (simp add: sharpen_def filter2D_def sharpen_kernel_def)
  also have "build h w (\<lambda>y x. map (\<lambda>c. saturate_u8 (correlate ?img sharpen_kernel y x c)) [0..<length p])
      = build h w (\<lambda>y x. p)"
  proof (rule build_cong)
    fix y x assume yx: "y < h" "x < w"
    have "map (\<lambda>c. saturate_u8 (correlate ?img sharpen_kernel y x c)) [0..<length p] =
        map (\<lambda>c. p ! c) [0..<length p]"
      using yx wf by (simp add: correlate_sharpen sharpened_sample_flat)
    then show "map (\<lambda>c. saturate_u8 (correlate ?img sharpen_kernel y x c)) [0..<length p] = p"
      by (simp add: map_nth)
  qed
  also have "\<dots> = ?img" by (rule build_const)
  finally show ?thesis .
qed

text \<open>
  Claim C7. A flat image, one whose pixels are all the same, is a fixed point of
  \<open>sharpen\<close>, so sharpening it twice returns it unchanged: the weights of the kernel sum
  to 1 and the mirrored border repeats the same pixel.
\<close>

theorem sharpen_flat_fixed_point:
  assumes "0 < h" and "0 < w" and "p \<noteq> []"
  shows "sharpen (replicate h (replicate w p)) = Inr (replicate h (replicate w p)) \<and>
         sharpen_twice (replicate h (replicate w p)) = Inr (replicate h (replicate w p))"
  using sharpen_flat [OF assms] by (simp add: sharpen_twice_def)

theorem sharpen_flat_fixed_point_witness:
  "sharpen [[[10, 20, 30], [10, 20, 30]], [[10, 20, 30], [10, 20, 30]]] =
     Inr [[[10, 20, 30], [10, 20, 30]], [[10, 20, 30], [10, 20, 30]]] \<and>
   sharpen_twice [[[10, 20, 30], [10, 20, 30]], [[10, 20, 30], [10, 20, 30]]] =
     Inr [[[10, 20, 30], [10, 20, 30]], [[10, 20, 30], [10, 20, 30]]]"
proof -
  have r: "[[[10, 20, 30], [10, 20, 30]], [[10, 20, 30], [10, 20, 30]]] =
      replicate 2 (replicate 2 [10, 20, 30 :: sample])"
    by (simp add: numeral_2_eq_2)
  show ?thesis
    unfolding r by (rule sharpen_flat_fixed_point) simp_all
qed

end
